theory Spec2Isabelle
  imports Main
begin

section \<open>The JSON text of a participants list\<close>

text \<open>
  \<^verbatim>\<open>database.py\<close> keeps the roster of an activity in one text column,
  \<^verbatim>\<open>participants_json\<close>, written with \<^verbatim>\<open>json.dumps\<close> and read with
  \<^verbatim>\<open>json.loads\<close>. Both are modelled with the defaults of CPython's \<^verbatim>\<open>json\<close>
  module (\<^verbatim>\<open>ensure_ascii=True\<close>, the separator \<^verbatim>\<open>", "\<close>, strict decoding), on the
  only kind of value the repository passes to them: a list of strings.

  A Python string is modelled as a HOL \<open>string\<close>: a list of 8-bit characters, each read
  as the code point of the same number (0 to 255). Code points above 255 have no
  counterpart in this alphabet; the decoder reports an escape that denotes one as
  \<open>Unrepresentable\<close> (this covers the escapes of UTF-16 surrogates as well).
\<close>

abbreviation DQUOTE :: char where "DQUOTE \<equiv> CHR 0x22"
abbreviation BACKSLASH :: char where "BACKSLASH \<equiv> CHR 0x5C"

subsection \<open>Encoding: \<^verbatim>\<open>json.dumps\<close>\<close>

text \<open>The digit table \<^verbatim>\<open>"0123456789abcdef"[n & 0xf]\<close> of the encoder.\<close>

definition hexdigit :: "nat \<Rightarrow> char" where
  "hexdigit n = ''0123456789abcdef'' ! (n mod 16)"

text \<open>
  One character of a string, as the encoder writes it with \<^verbatim>\<open>ensure_ascii\<close>: the
  backslash, the double quote and five control characters have short escapes, the other
  printable ASCII characters (space to \<^verbatim>\<open>~\<close>) stand for themselves, and everything else
  becomes \<^verbatim>\<open>\uXXXX\<close> with four lower-case hexadecimal digits.
\<close>

definition ascii_escape_unichar :: "char \<Rightarrow> string" where
  "ascii_escape_unichar c =
     (if c = BACKSLASH then [BACKSLASH, BACKSLASH]
      else if c = DQUOTE then [BACKSLASH, DQUOTE]
      else if c = CHR 0x08 then [BACKSLASH, CHR ''b'']
      else if c = CHR 0x0C then [BACKSLASH, CHR ''f'']
      else if c = CHR 0x0A then [BACKSLASH, CHR ''n'']
      else if c = CHR 0x0D then [BACKSLASH, CHR ''r'']
      else if c = CHR 0x09 then [BACKSLASH, CHR ''t'']
      else if 0x20 \<le> (of_char c :: nat) \<and> (of_char c :: nat) \<le> 0x7E then [c]
      else [BACKSLASH, CHR ''u'',
            hexdigit (of_char c div 4096), hexdigit (of_char c div 256),
            hexdigit (of_char c div 16), hexdigit (of_char c)])"

definition encode_basestring_ascii :: "string \<Rightarrow> string" where
  "encode_basestring_ascii s = DQUOTE # concat (map ascii_escape_unichar s) @ [DQUOTE]"

text \<open>The items of a list, joined by the item separator \<^verbatim>\<open>", "\<close>.\<close>

fun join_items :: "string list \<Rightarrow> string" where
  "join_items [] = []"
| "join_items [x] = x"
| "join_items (x # y # ys) = x @ '', '' @ join_items (y # ys)"

definition json_dumps :: "string list \<Rightarrow> string" where
  "json_dumps xs = ''['' @ join_items (map encode_basestring_ascii xs) @ '']''"

subsection \<open>Decoding: \<^verbatim>\<open>json.loads\<close>\<close>

text \<open>
  The decoder either returns the list of strings that the text denotes, or fails:
  \<^item> \<open>JSONDecodeError\<close>: the text is not JSON, and \<^verbatim>\<open>json.loads\<close> raises this exception;
  \<^item> \<open>Unrepresentable\<close>: the text leaves what is modelled here: it holds a value other
    than a list of strings (a number, an object, a nested list, ...), or an escape
    \<^verbatim>\<open>\uXXXX\<close> above \<^verbatim>\<open>\u00ff\<close>. \<^verbatim>\<open>set_participants\<close> never writes such a text.
\<close>

datatype json_error = JSONDecodeError | Unrepresentable

definition hexval :: "char \<Rightarrow> nat option" where
  "hexval c =
     (let n = (of_char c :: nat) in
      if 0x30 \<le> n \<and> n \<le> 0x39 then Some (n - 0x30)
      else if 0x61 \<le> n \<and> n \<le> 0x66 then Some (n - 0x61 + 10)
      else if 0x41 \<le> n \<and> n \<le> 0x46 then Some (n - 0x41 + 10)
      else None)"

text \<open>The one-letter escapes the decoder knows (its table \<^verbatim>\<open>BACKSLASH\<close>).\<close>

definition unescape :: "char \<Rightarrow> char option" where
  "unescape e =
     (if e = DQUOTE then Some DQUOTE
      else if e = BACKSLASH then Some BACKSLASH
      else if e = CHR ''/'' then Some (CHR ''/'')
      else if e = CHR ''b'' then Some (CHR 0x08)
      else if e = CHR ''f'' then Some (CHR 0x0C)
      else if e = CHR ''n'' then Some (CHR 0x0A)
      else if e = CHR ''r'' then Some (CHR 0x0D)
      else if e = CHR ''t'' then Some (CHR 0x09)
      else None)"

definition cons_char ::
  "char \<Rightarrow> json_error + (string \<times> string) \<Rightarrow> json_error + (string \<times> string)" where
  "cons_char c r = (case r of Inl e \<Rightarrow> Inl e | Inr (s, rest) \<Rightarrow> Inr (c # s, rest))"

text \<open>
  \<open>scanstring\<close> reads a string literal from just after its opening quote and returns the
  decoded string with the text that follows the closing quote. In strict mode a raw
  control character (below \<^verbatim>\<open>0x20\<close>) inside the literal is an error, as are an unknown
  escape, a \<^verbatim>\<open>\u\<close> without four hexadecimal digits, and a missing closing quote.
\<close>

fun scanstring :: "string \<Rightarrow> json_error + (string \<times> string)" where
  "scanstring [] = Inl JSONDecodeError"
| "scanstring (c # cs) =
     (if c = DQUOTE then Inr ([], cs)
      else if c = BACKSLASH then
        (case cs of
           [] \<Rightarrow> Inl JSONDecodeError
         | e # cs' \<Rightarrow>
             if e = CHR ''u'' then
               (case cs' of
                  h1 # h2 # h3 # h4 # cs'' \<Rightarrow>
                    (case (hexval h1, hexval h2, hexval h3, hexval h4) of
                       (Some d1, Some d2, Some d3, Some d4) \<Rightarrow>
                         (let n = ((d1 * 16 + d2) * 16 + d3) * 16 + d4 in
                          if n < 256 then cons_char (char_of n) (scanstring cs'')
                          else Inl Unrepresentable)
                     | _ \<Rightarrow> Inl JSONDecodeError)
                | _ \<Rightarrow> Inl JSONDecodeError)
             else
               (case unescape e of
                  None \<Rightarrow> Inl JSONDecodeError
                | Some ch \<Rightarrow> cons_char ch (scanstring cs')))
      else if (of_char c :: nat) < 0x20 then Inl JSONDecodeError
      else cons_char c (scanstring cs))"

text \<open>The decoder skips spaces, tabs, line feeds and carriage returns between tokens.\<close>

definition is_whitespace :: "char \<Rightarrow> bool" where
  "is_whitespace c \<longleftrightarrow> c = CHR '' '' \<or> c = CHR 0x09 \<or> c = CHR 0x0A \<or> c = CHR 0x0D"

definition skip_whitespace :: "string \<Rightarrow> string" where
  "skip_whitespace s = dropWhile is_whitespace s"

text \<open>
  The characters at which the scanner starts a JSON value: a string, an object, an
  array, \<^verbatim>\<open>null\<close>, \<^verbatim>\<open>true\<close>, \<^verbatim>\<open>false\<close>, \<^verbatim>\<open>NaN\<close>, \<^verbatim>\<open>Infinity\<close> or a number. At any
  other character it raises (``Expecting value'').
\<close>

definition value_start :: "char \<Rightarrow> bool" where
  "value_start c \<longleftrightarrow> c \<in> set (DQUOTE # ''{[ntfNI-0123456789'')"

text \<open>
  The items of a non-empty array, from the first character of an item: an item, then
  optional whitespace, then either the closing bracket or a comma, optional whitespace
  and the next item.
\<close>

function parse_items :: "string \<Rightarrow> json_error + (string list \<times> string)" where
  "parse_items s =
     (case s of
        [] \<Rightarrow> Inl JSONDecodeError
      | c # cs \<Rightarrow>
          if c = DQUOTE then
            (case scanstring cs of
               Inl e \<Rightarrow> Inl e
             | Inr (x, rest) \<Rightarrow>
                 (case skip_whitespace rest of
                    [] \<Rightarrow> Inl JSONDecodeError
                  | d # ds \<Rightarrow>
                      if d = CHR '']'' then Inr ([x], ds)
                      else if d = CHR '','' then
                        (case parse_items (skip_whitespace ds) of
                           Inl e \<Rightarrow> Inl e
                         | Inr (xs, r) \<Rightarrow> Inr (x # xs, r))
                      else Inl JSONDecodeError))
          else if value_start c then Inl Unrepresentable
          else Inl JSONDecodeError)"
  by pat_completeness auto

text \<open>An array, from just after its opening bracket.\<close>

definition parse_array :: "string \<Rightarrow> json_error + (string list \<times> string)" where
  "parse_array s =
     (case skip_whitespace s of
        [] \<Rightarrow> Inl JSONDecodeError
      | c # cs \<Rightarrow> if c = CHR '']'' then Inr ([], cs) else parse_items (c # cs))"

text \<open>
  A whole document: whitespace, one value, whitespace, and nothing more (anything more is
  the error ``Extra data'').
\<close>

definition json_loads :: "string \<Rightarrow> json_error + string list" where
  "json_loads s =
     (case skip_whitespace s of
        [] \<Rightarrow> Inl JSONDecodeError
      | c # cs \<Rightarrow>
          if c = CHR ''['' then
            (case parse_array cs of
               Inl e \<Rightarrow> Inl e
             | Inr (xs, rest) \<Rightarrow>
                 if skip_whitespace rest = [] then Inr xs else Inl JSONDecodeError)
          else if value_start c then Inl Unrepresentable
          else Inl JSONDecodeError)"

section \<open>\<^verbatim>\<open>database.py\<close>: the Activity model and the seed\<close>

text \<open>
  A row of the table \<^verbatim>\<open>activities\<close>. The column \<^verbatim>\<open>id\<close> is the field \<open>activity_id\<close>
  (\<open>id\<close> is the identity function of HOL).
\<close>

record activity =
  activity_id :: int
  name :: string
  description :: string
  schedule :: string
  max_participants :: int
  participants_json :: string

definition get_participants :: "activity \<Rightarrow> json_error + string list" where
  "get_participants self = json_loads (participants_json self)"

definition set_participants :: "activity \<Rightarrow> string list \<Rightarrow> activity" where
  "set_participants self participants =
     self\<lparr>participants_json := json_dumps participants\<rparr>"

text \<open>The values of the dictionary that \<^verbatim>\<open>to_dict\<close> builds.\<close>

datatype pyval = PyStr string | PyInt int | PyList "string list"

text \<open>
  \<^verbatim>\<open>to_dict\<close>: a dictionary, in insertion order, as an association list. Only
  \<^verbatim>\<open>get_participants\<close> can raise.
\<close>

definition to_dict :: "activity \<Rightarrow> json_error + (string \<times> pyval) list" where
  "to_dict self =
     (case get_participants self of
        Inl e \<Rightarrow> Inl e
      | Inr participants \<Rightarrow>
          Inr [(''description'', PyStr (description self)),
               (''schedule'', PyStr (schedule self)),
               (''max_participants'', PyInt (max_participants self)),
               (''participants'', PyList participants)])"

text \<open>
  The table is the list of its rows, in insertion order. The seed of \<^verbatim>\<open>init_db\<close>: name,
  description, schedule, capacity and initial roster of each default activity.
\<close>

type_synonym db = "activity list"

definition default_activities :: "(string \<times> string \<times> string \<times> int \<times> string list) list" where
  "default_activities =
     [(''Chess Club'',
       ''Learn strategies and compete in chess tournaments'',
       ''Fridays, 3:30 PM - 5:00 PM'',
       12, [''michael@mergington.edu'', ''daniel@mergington.edu'']),
      (''Programming Class'',
       ''Learn programming fundamentals and build software projects'',
       ''Tuesdays and Thursdays, 3:30 PM - 4:30 PM'',
       20, [''emma@mergington.edu'', ''sophia@mergington.edu'']),
      (''Gym Class'',
       ''Physical education and sports activities'',
       ''Mondays, Wednesdays, Fridays, 2:00 PM - 3:00 PM'',
       30, [''john@mergington.edu'', ''olivia@mergington.edu'']),
      (''Soccer Team'',
       ''Join the school soccer team and compete in matches'',
       ''Tuesdays and Thursdays, 4:00 PM - 5:30 PM'',
       22, [''liam@mergington.edu'', ''noah@mergington.edu'']),
      (''Basketball Team'',
       ''Practice and play basketball with the school team'',
       ''Wednesdays and Fridays, 3:30 PM - 5:00 PM'',
       15, [''ava@mergington.edu'', ''mia@mergington.edu'']),
      (''Art Club'',
       ''Explore your creativity through painting and drawing'',
       ''Thursdays, 3:30 PM - 5:00 PM'',
       15, [''amelia@mergington.edu'', ''harper@mergington.edu'']),
      (''Drama Club'',
       ''Act, direct, and produce plays and performances'',
       ''Mondays and Wednesdays, 4:00 PM - 5:30 PM'',
       20, [''ella@mergington.edu'', ''scarlett@mergington.edu'']),
      (''Math Club'',
       ''Solve challenging problems and participate in math competitions'',
       ''Tuesdays, 3:30 PM - 4:30 PM'',
       10, [''james@mergington.edu'', ''benjamin@mergington.edu'']),
      (''Debate Team'',
       ''Develop public speaking and argumentation skills'',
       ''Fridays, 4:00 PM - 5:30 PM'',
       12, [''charlotte@mergington.edu'', ''henry@mergington.edu''])]"

text \<open>
  The loop of \<^verbatim>\<open>init_db\<close> that adds the default activities: each row is built, given its
  roster with \<^verbatim>\<open>set_participants\<close>, and inserted; the database numbers the rows from
  \<open>next_id\<close> on.
\<close>

fun add_activities ::
  "int \<Rightarrow> (string \<times> string \<times> string \<times> int \<times> string list) list \<Rightarrow> activity list" where
  "add_activities next_id [] = []"
| "add_activities next_id ((n, d, s, m, ps) # rest) =
     set_participants
       \<lparr>activity_id = next_id, name = n, description = d, schedule = s,
        max_participants = m, participants_json = ''[]''\<rparr> ps
     # add_activities (next_id + 1) rest"

text \<open>\<^verbatim>\<open>init_db\<close> seeds an empty table and leaves any other table as it is.\<close>

definition init_db :: "db \<Rightarrow> db" where
  "init_db rows = (if length rows > 0 then rows else rows @ add_activities 1 default_activities)"

section \<open>\<^verbatim>\<open>app.py\<close>: the request handlers\<close>

text \<open>
  What a handler can raise: the \<^verbatim>\<open>HTTPException\<close>s it raises itself, with status code and
  detail, and a failure of \<^verbatim>\<open>json.loads\<close> that it does not catch.
\<close>

datatype exn = HTTPException int string | Uncaught json_error

text \<open>
  \<^verbatim>\<open>db.query(Activity).filter(Activity.name == activity_name).first()\<close>: the first row
  of that name, if any.
\<close>

definition first_by_name :: "string \<Rightarrow> db \<Rightarrow> activity option" where
  "first_by_name activity_name rows = find (\<lambda>a. name a = activity_name) rows"

text \<open>
  \<^verbatim>\<open>db.commit()\<close> after the handler has changed the object it loaded: the change is
  written to the row with the object's primary key.
\<close>

definition commit :: "activity \<Rightarrow> db \<Rightarrow> db" where
  "commit a rows = map (\<lambda>row. if activity_id row = activity_id a then a else row) rows"

text \<open>
  A handler takes the table and returns what it answers or raises, together with the
  table it leaves. A handler that raises has committed nothing.
\<close>

text \<open>
  \<^verbatim>\<open>get_activities\<close>: the dictionary comprehension over all rows, in table order; a later
  row of the same name would replace the entry of an earlier one.
\<close>

fun activities_dict ::
  "(string \<rightharpoonup> (string \<times> pyval) list) \<Rightarrow> activity list
     \<Rightarrow> json_error + (string \<rightharpoonup> (string \<times> pyval) list)" where
  "activities_dict acc [] = Inr acc"
| "activities_dict acc (a # as) =
     (case to_dict a of
        Inl e \<Rightarrow> Inl e
      | Inr d \<Rightarrow> activities_dict (acc(name a \<mapsto> d)) as)"

definition get_activities :: "db \<Rightarrow> (exn + (string \<rightharpoonup> (string \<times> pyval) list)) \<times> db" where
  "get_activities rows =
     (case activities_dict Map.empty rows of
        Inl e \<Rightarrow> (Inl (Uncaught e), rows)
      | Inr d \<Rightarrow> (Inr d, rows))"

definition signup_for_activity :: "string \<Rightarrow> string \<Rightarrow> db \<Rightarrow> (exn + (string \<times> string) list) \<times> db" where
  "signup_for_activity activity_name email rows =
     (case first_by_name activity_name rows of
        None \<Rightarrow> (Inl (HTTPException 404 ''Activity not found''), rows)
      | Some activity \<Rightarrow>
          (case get_participants activity of
             Inl e \<Rightarrow> (Inl (Uncaught e), rows)
           | Inr participants \<Rightarrow>
               if email \<in> set participants then
                 (Inl (HTTPException 400 ''Student is already signed up''), rows)
               else if int (length participants) \<ge> max_participants activity then
                 (Inl (HTTPException 400 ''Activity is at maximum capacity''), rows)
               else
                 (Inr [(''message'', ''Signed up '' @ email @ '' for '' @ activity_name)],
                  commit (set_participants activity (participants @ [email])) rows)))"

definition unregister_from_activity ::
  "string \<Rightarrow> string \<Rightarrow> db \<Rightarrow> (exn + (string \<times> string) list) \<times> db" where
  "unregister_from_activity activity_name email rows =
     (case first_by_name activity_name rows of
        None \<Rightarrow> (Inl (HTTPException 404 ''Activity not found''), rows)
      | Some activity \<Rightarrow>
          (case get_participants activity of
             Inl e \<Rightarrow> (Inl (Uncaught e), rows)
           | Inr participants \<Rightarrow>
               if email \<notin> set participants then
                 (Inl (HTTPException 400 ''Student is not signed up for this activity''), rows)
               else
                 (Inr [(''message'', ''Unregistered '' @ email @ '' from '' @ activity_name)],
                  commit (set_participants activity (remove1 email participants)) rows)))"

text \<open>
  The tables the service can be in: the seeded table of a first start, and whatever a
  sign-up or an unregistration (successful or not) leaves of such a table.
\<close>

inductive reachable :: "db \<Rightarrow> bool" where
  seeded: "reachable (init_db [])"
| signup: "reachable rows \<Longrightarrow> reachable (snd (signup_for_activity activity_name email rows))"
| unregister:
    "reachable rows \<Longrightarrow> reachable (snd (unregister_from_activity activity_name email rows))"

text \<open>
  The invariant of the data model for one row: its roster decodes, is no longer than
  \<open>max_participants\<close> and holds no identifier twice.
\<close>

definition roster_ok :: "activity \<Rightarrow> bool" where
  "roster_ok a =
     (case get_participants a of
        Inl e \<Rightarrow> False
      | Inr ps \<Rightarrow> int (length ps) \<le> max_participants a \<and> distinct ps)"

section \<open>The JSON round trip\<close>

lemma cons_char_Inr:
  "cons_char c r = Inr (x, rest) \<Longrightarrow> \<exists>x'. r = Inr (x', rest)"
  by (auto simp: cons_char_def split: sum.splits prod.splits)

lemma scanstring_shorter:
  "scanstring s = Inr (x, rest) \<Longrightarrow> length rest < length s"
proof (induction s arbitrary: x rest rule: length_induct)
  case (1 s)
  show ?case
  proof (cases s)
    case Nil
    with "1.prems" show ?thesis by simp
  next
    case (Cons c cs)
    note s = Cons
    consider (quote) "c = DQUOTE" | (esc) "c \<noteq> DQUOTE" "c = BACKSLASH"
      | (plain) "c \<noteq> DQUOTE" "c \<noteq> BACKSLASH"
      by blast
    then show ?thesis
    proof cases
      case quote
      with "1.prems" s show ?thesis by simp
    next
      case plain
      with "1.prems" s have "cons_char c (scanstring cs) = Inr (x, rest)"
        by (simp split: if_splits)
      then obtain x' where "scanstring cs = Inr (x', rest)"
        using cons_char_Inr by blast
      with "1.IH" s have "length rest < length cs" by simp
      with s show ?thesis by simp
    next
      case esc
      show ?thesis
      proof (cases cs)
        case Nil
        with "1.prems" s esc show ?thesis by simp
      next
        case (Cons e cs')
        note cs = Cons
        show ?thesis
        proof (cases "e = CHR ''u''")
          case False
          with "1.prems" s esc cs obtain ch where
            "cons_char ch (scanstring cs') = Inr (x, rest)"
            by (auto split: option.splits)
          then obtain x' where "scanstring cs' = Inr (x', rest)"
            using cons_char_Inr by blast
          with "1.IH" s cs have "length rest < length cs'" by simp
          with s cs show ?thesis by simp
        next
          case True
          from "1.prems" s esc cs True obtain h1 h2 h3 h4 cs'' where
            cs': "cs' = h1 # h2 # h3 # h4 # cs''"
            by (auto split: list.splits)
          with "1.prems" s esc cs True obtain ch where
            "cons_char ch (scanstring cs'') = Inr (x, rest)"
            by (auto simp: Let_def split: option.splits if_splits)
          then obtain x' where "scanstring cs'' = Inr (x', rest)"
            using cons_char_Inr by blast
          with "1.IH" s cs cs' have "length rest < length cs''" by simp
          with s cs cs' show ?thesis by simp
        qed
      qed
    qed
  qed
qed

text \<open>Every item consumes at least its two quotes, so the loop over the items ends.\<close>

termination parse_items
proof (relation "measure length", goal_cases)
  case 1
  show ?case by simp
next
  case (2 s c cs xr x rest d ds)
  have "length rest < length cs"
    using 2 scanstring_shorter [of cs x rest] by auto
  moreover have "length (d # ds) \<le> length rest"
    using 2 by (metis skip_whitespace_def length_dropWhile_le)
  moreover have "length (skip_whitespace ds) \<le> length ds"
    by (simp add: skip_whitespace_def length_dropWhile_le)
  ultimately show ?case using 2 by simp
qed

declare parse_items.simps [simp del]

lemma hexval_hexdigit: "hexval (hexdigit n) = Some (n mod 16)"
proof -
  have "\<forall>k\<in>{0..<16}. hexval (hexdigit k) = Some k"
    by code_simp
  moreover have "n mod 16 \<in> {0..<16}" by simp
  ultimately have "hexval (hexdigit (n mod 16)) = Some (n mod 16)" by blast
  then show ?thesis by (simp add: hexdigit_def)
qed

lemma scanstring_unicode_escape:
  fixes n :: nat
  assumes "n < 256"
  shows "scanstring (BACKSLASH # CHR ''u'' # hexdigit (n div 4096) # hexdigit (n div 256)
            # hexdigit (n div 16) # hexdigit n # t)
         = cons_char (char_of n) (scanstring t)"
proof -
  from assms have "n div 4096 = 0" "n div 256 = 0" "n div 16 mod 16 = n div 16"
    by simp_all
  moreover have "n div 16 * 16 + n mod 16 = n" by simp
  ultimately show ?thesis
    using assms by (simp add: hexval_hexdigit)
qed

text \<open>The scanner undoes the encoding of each character.\<close>

lemma scanstring_escape:
  "scanstring (ascii_escape_unichar c @ t) = cons_char c (scanstring t)"
proof -
  consider (special) "c \<in> {BACKSLASH, DQUOTE, CHR 0x08, CHR 0x0C, CHR 0x0A, CHR 0x0D, CHR 0x09}"
    | (plain) "c \<notin> {BACKSLASH, DQUOTE, CHR 0x08, CHR 0x0C, CHR 0x0A, CHR 0x0D, CHR 0x09}"
        "0x20 \<le> (of_char c :: nat) \<and> (of_char c :: nat) \<le> 0x7E"
    | (unicode) "c \<notin> {BACKSLASH, DQUOTE, CHR 0x08, CHR 0x0C, CHR 0x0A, CHR 0x0D, CHR 0x09}"
        "\<not> (0x20 \<le> (of_char c :: nat) \<and> (of_char c :: nat) \<le> 0x7E)"
    by blast
  then show ?thesis
  proof cases
    case special
    then show ?thesis
      by (auto simp: ascii_escape_unichar_def unescape_def)
  next
    case plain
    then show ?thesis
      by (simp add: ascii_escape_unichar_def)
  next
    case unicode
    have "scanstring (BACKSLASH # CHR ''u'' # hexdigit (of_char c div 4096)
            # hexdigit (of_char c div 256) # hexdigit (of_char c div 16)
            # hexdigit (of_char c) # t)
          = cons_char (char_of (of_char c :: nat)) (scanstring t)"
      by (rule scanstring_unicode_escape) simp
    with unicode show ?thesis
      by (simp add: ascii_escape_unichar_def)
  qed
qed

lemma scanstring_encode:
  "scanstring (concat (map ascii_escape_unichar s) @ DQUOTE # rest) = Inr (s, rest)"
  by (induction s) (simp_all add: scanstring_escape cons_char_def)

lemma skip_whitespace_non_ws [simp]:
  "\<not> is_whitespace c \<Longrightarrow> skip_whitespace (c # s) = c # s"
  by (simp add: skip_whitespace_def)

lemma skip_whitespace_Nil [simp]: "skip_whitespace [] = []"
  by (simp add: skip_whitespace_def)

lemma skip_whitespace_space [simp]: "skip_whitespace (CHR '' '' # s) = skip_whitespace s"
  by (simp add: skip_whitespace_def is_whitespace_def)

lemma not_is_whitespace [simp]:
  "\<not> is_whitespace DQUOTE" "\<not> is_whitespace (CHR '']'')" "\<not> is_whitespace (CHR '','')"
  "\<not> is_whitespace (CHR ''['')"
  by (simp_all add: is_whitespace_def)

lemma parse_items_join:
  "xs \<noteq> [] \<Longrightarrow>
   parse_items (join_items (map encode_basestring_ascii xs) @ CHR '']'' # rest) = Inr (xs, rest)"
proof (induction xs rule: join_items.induct)
  case 1
  then show ?case by simp
next
  case (2 x)
  show ?case
    by (subst parse_items.simps)
       (simp add: encode_basestring_ascii_def scanstring_encode)
next
  case (3 x y ys)
  then have IH: "parse_items (join_items (map encode_basestring_ascii (y # ys)) @ CHR '']'' # rest)
      = Inr (y # ys, rest)"
    by simp
  have start: "join_items (map encode_basestring_ascii (y # ys)) @ CHR '']'' # rest
      = DQUOTE # tl (join_items (map encode_basestring_ascii (y # ys)) @ CHR '']'' # rest)"
    by (cases ys) (simp_all add: encode_basestring_ascii_def)
  have "skip_whitespace (join_items (map encode_basestring_ascii (y # ys)) @ CHR '']'' # rest)
      = join_items (map encode_basestring_ascii (y # ys)) @ CHR '']'' # rest"
    by (subst start, subst (2) start) simp
  with IH show ?case
    by (subst parse_items.simps)
       (simp add: encode_basestring_ascii_def scanstring_encode)
qed

lemma json_roundtrip: "json_loads (json_dumps xs) = Inr xs"
proof (cases xs)
  case Nil
  then show ?thesis
    by (simp add: json_loads_def json_dumps_def parse_array_def)
next
  case (Cons y ys)
  have start: "join_items (map encode_basestring_ascii (y # ys)) @ '']''
      = DQUOTE # tl (join_items (map encode_basestring_ascii (y # ys)) @ '']'')"
    by (cases ys) (simp_all add: encode_basestring_ascii_def)
  have "parse_array (join_items (map encode_basestring_ascii (y # ys)) @ '']'')
      = parse_items (join_items (map encode_basestring_ascii (y # ys)) @ '']'')"
    unfolding parse_array_def by (subst start, subst (2) start) simp
  also have "\<dots> = Inr (y # ys, [])"
    using parse_items_join [of "y # ys" "[]"] by simp
  finally show ?thesis
    using Cons by (simp add: json_loads_def json_dumps_def)
qed

section \<open>Rows, look-up and commit\<close>

lemma get_participants_set_participants [simp]:
  "get_participants (set_participants a ps) = Inr ps"
  by (simp add: get_participants_def set_participants_def json_roundtrip)

lemma set_participants_columns [simp]:
  "activity_id (set_participants a ps) = activity_id a"
  "name (set_participants a ps) = name a"
  "description (set_participants a ps) = description a"
  "schedule (set_participants a ps) = schedule a"
  "max_participants (set_participants a ps) = max_participants a"
  by (simp_all add: set_participants_def)

lemma set_participants_twice [simp]:
  "set_participants (set_participants a ps) qs = set_participants a qs"
  by (simp add: set_participants_def)

lemma first_by_name_Some:
  "first_by_name n rows = Some a \<Longrightarrow> a \<in> set rows \<and> name a = n"
  unfolding first_by_name_def by (induction rows) (auto split: if_splits)

text \<open>
  After the commit of a changed copy of the row that the look-up found, the look-up finds
  the changed copy.
\<close>

lemma first_by_name_commit:
  assumes "first_by_name n rows = Some a"
    and "name a' = n" and "activity_id a' = activity_id a"
  shows "first_by_name n (commit a' rows) = Some a'"
  using assms unfolding first_by_name_def commit_def
  by (induction rows) (auto split: if_splits)

lemma first_by_name_commit_None:
  "first_by_name n rows = None \<Longrightarrow> name a' \<noteq> n \<Longrightarrow> first_by_name n (commit a' rows) = None"
  unfolding first_by_name_def commit_def
  by (induction rows) (auto split: if_splits)

lemma set_commit: "set (commit a' rows) \<subseteq> insert a' (set rows)"
  unfolding commit_def by auto

lemma length_commit [simp]: "length (commit a' rows) = length rows"
  by (simp add: commit_def)

text \<open>The seeded table, row by row, and its first row, the Chess Club.\<close>

lemma init_db_empty:
  "init_db [] = add_activities 1 default_activities"
  by (simp add: init_db_def)

lemma seeded_chess_club:
  "first_by_name ''Chess Club'' (init_db []) = Some (hd (init_db []))"
  "name (hd (init_db [])) = ''Chess Club''"
  "max_participants (hd (init_db [])) = 12"
  "get_participants (hd (init_db [])) =
     Inr [''michael@mergington.edu'', ''daniel@mergington.edu'']"
  by (simp_all add: init_db_def default_activities_def first_by_name_def)

lemma seeded_names:
  "map name (init_db []) =
     [''Chess Club'', ''Programming Class'', ''Gym Class'', ''Soccer Team'',
      ''Basketball Team'', ''Art Club'', ''Drama Club'', ''Math Club'', ''Debate Team'']"
  by (simp add: init_db_def default_activities_def)

lemma first_by_name_None_iff:
  "first_by_name n rows = None \<longleftrightarrow> n \<notin> set (map name rows)"
  unfolding first_by_name_def by (induction rows) auto

text \<open>The three ways a sign-up ends once the row is found and its roster read.\<close>

lemma signup_success:
  assumes "first_by_name n rows = Some a" and "get_participants a = Inr ps"
    and "e \<notin> set ps" and "int (length ps) < max_participants a"
  shows "signup_for_activity n e rows =
           (Inr [(''message'', ''Signed up '' @ e @ '' for '' @ n)],
            commit (set_participants a (ps @ [e])) rows)"
  using assms by (simp add: signup_for_activity_def)

lemma signup_duplicate:
  assumes "first_by_name n rows = Some a" and "get_participants a = Inr ps"
    and "e \<in> set ps"
  shows "signup_for_activity n e rows =
           (Inl (HTTPException 400 ''Student is already signed up''), rows)"
  using assms by (simp add: signup_for_activity_def)

lemma signup_full:
  assumes "first_by_name n rows = Some a" and "get_participants a = Inr ps"
    and "e \<notin> set ps" and "max_participants a \<le> int (length ps)"
  shows "signup_for_activity n e rows =
           (Inl (HTTPException 400 ''Activity is at maximum capacity''), rows)"
  using assms by (simp add: signup_for_activity_def)

lemma signup_not_found:
  "first_by_name n rows = None \<Longrightarrow>
   signup_for_activity n e rows = (Inl (HTTPException 404 ''Activity not found''), rows)"
  by (simp add: signup_for_activity_def)

lemma unregister_success:
  assumes "first_by_name n rows = Some a" and "get_participants a = Inr ps"
    and "e \<in> set ps"
  shows "unregister_from_activity n e rows =
           (Inr [(''message'', ''Unregistered '' @ e @ '' from '' @ n)],
            commit (set_participants a (remove1 e ps)) rows)"
  using assms by (simp add: unregister_from_activity_def)

lemma unregister_absent:
  assumes "first_by_name n rows = Some a" and "get_participants a = Inr ps"
    and "e \<notin> set ps"
  shows "unregister_from_activity n e rows =
           (Inl (HTTPException 400 ''Student is not signed up for this activity''), rows)"
  using assms by (simp add: unregister_from_activity_def)

lemma unregister_not_found:
  "first_by_name n rows = None \<Longrightarrow>
   unregister_from_activity n e rows = (Inl (HTTPException 404 ''Activity not found''), rows)"
  by (simp add: unregister_from_activity_def)

text \<open>The row a successful handler commits is found again under the same name.\<close>

lemma first_by_name_commit_set_participants:
  assumes "first_by_name n rows = Some a"
  shows "first_by_name n (commit (set_participants a ps) rows) = Some (set_participants a ps)"
  using assms first_by_name_Some [OF assms]
  by (intro first_by_name_commit) simp_all

text \<open>Removing the one occurrence of an entry keeps the others in their order.\<close>

lemma filter_absent:
  "e \<notin> set ps \<Longrightarrow> filter (\<lambda>s. s \<noteq> e) ps = ps"
  by (induction ps) auto

lemma remove1_distinct_filter:
  "distinct ps \<Longrightarrow> remove1 e ps = filter (\<lambda>s. s \<noteq> e) ps"
  by (induction ps) (auto simp: filter_absent)

text \<open>Both handlers keep the invariant of every row, and the seeded rows have it.\<close>

lemma roster_ok_iff:
  "roster_ok a \<longleftrightarrow>
     (\<exists>ps. get_participants a = Inr ps \<and> int (length ps) \<le> max_participants a \<and> distinct ps)"
  by (auto simp: roster_ok_def split: sum.splits)

lemma roster_ok_set_participants [simp]:
  "roster_ok (set_participants a ps) \<longleftrightarrow> int (length ps) \<le> max_participants a \<and> distinct ps"
  by (simp add: roster_ok_def)

lemma roster_ok_commit:
  assumes "roster_ok a'" and "\<forall>a\<in>set rows. roster_ok a"
  shows "\<forall>a\<in>set (commit a' rows). roster_ok a"
  using assms set_commit [of a' rows] by auto

lemma signup_keeps_rosters_ok:
  assumes "\<forall>a\<in>set rows. roster_ok a"
  shows "\<forall>a\<in>set (snd (signup_for_activity n e rows)). roster_ok a"
proof (cases "first_by_name n rows")
  case None
  with assms show ?thesis by (simp add: signup_not_found)
next
  case (Some a)
  then have "a \<in> set rows" by (simp add: first_by_name_Some)
  with assms obtain ps where ps: "get_participants a = Inr ps"
    and len: "int (length ps) \<le> max_participants a" and dist: "distinct ps"
    by (auto simp: roster_ok_iff)
  consider (dup) "e \<in> set ps" | (full) "e \<notin> set ps" "max_participants a \<le> int (length ps)"
    | (room) "e \<notin> set ps" "int (length ps) < max_participants a"
    by linarith
  then show ?thesis
  proof cases
    case dup
    with Some ps assms show ?thesis by (simp add: signup_duplicate)
  next
    case full
    with Some ps assms show ?thesis by (simp add: signup_full)
  next
    case room
    have "roster_ok (set_participants a (ps @ [e]))"
      using room dist by simp
    then have "\<forall>b\<in>set (commit (set_participants a (ps @ [e])) rows). roster_ok b"
      using assms by (rule roster_ok_commit)
    with Some ps room show ?thesis by (simp add: signup_success)
  qed
qed

lemma unregister_keeps_rosters_ok:
  assumes "\<forall>a\<in>set rows. roster_ok a"
  shows "\<forall>a\<in>set (snd (unregister_from_activity n e rows)). roster_ok a"
proof (cases "first_by_name n rows")
  case None
  with assms show ?thesis by (simp add: unregister_not_found)
next
  case (Some a)
  then have "a \<in> set rows" by (simp add: first_by_name_Some)
  with assms obtain ps where ps: "get_participants a = Inr ps"
    and len: "int (length ps) \<le> max_participants a" and dist: "distinct ps"
    by (auto simp: roster_ok_iff)
  show ?thesis
  proof (cases "e \<in> set ps")
    case False
    with Some ps assms show ?thesis by (simp add: unregister_absent)
  next
    case True
    have "length (remove1 e ps) \<le> length ps"
      by (simp add: length_remove1)
    with len dist have "roster_ok (set_participants a (remove1 e ps))"
      by simp
    then have "\<forall>b\<in>set (commit (set_participants a (remove1 e ps)) rows). roster_ok b"
      using assms by (rule roster_ok_commit)
    with Some ps True show ?thesis by (simp add: unregister_success)
  qed
qed

lemma seeded_rosters_ok: "\<forall>a\<in>set (init_db []). roster_ok a"
  by (simp add: init_db_def default_activities_def)

lemma reachable_rosters_ok: "reachable rows \<Longrightarrow> \<forall>a\<in>set rows. roster_ok a"
proof (induction rows rule: reachable.induct)
  case seeded
  show ?case by (rule seeded_rosters_ok)
next
  case (signup rows activity_name email)
  from signup.IH show ?case by (rule signup_keeps_rosters_ok)
next
  case (unregister rows activity_name email)
  from unregister.IH show ?case by (rule unregister_keeps_rosters_ok)
qed

text \<open>What the dictionary comprehension builds, entry by entry.\<close>

lemma activities_dict_lookup:
  assumes "\<forall>a\<in>set rows. \<exists>ps. get_participants a = Inr ps"
    and "distinct (map name rows)"
  shows "\<exists>d. activities_dict acc rows = Inr d
           \<and> (\<forall>n. d n = (case find (\<lambda>a. name a = n) rows of
                            None \<Rightarrow> acc n
                          | Some a \<Rightarrow> (case to_dict a of Inl e \<Rightarrow> None | Inr v \<Rightarrow> Some v)))"
  using assms
proof (induction rows arbitrary: acc)
  case Nil
  show ?case by simp
next
  case (Cons a rows)
  from Cons.prems obtain ps where ps: "get_participants a = Inr ps"
    by auto
  then obtain v where v: "to_dict a = Inr v"
    by (simp add: to_dict_def)
  from Cons.prems have rest: "\<forall>b\<in>set rows. \<exists>ps. get_participants b = Inr ps"
    and dist: "distinct (map name rows)" and fresh: "name a \<notin> name ` set rows"
    by simp_all
  from Cons.IH [OF rest dist, of "acc(name a \<mapsto> v)"] obtain d where
    d: "activities_dict (acc(name a \<mapsto> v)) rows = Inr d"
    and look: "\<And>n. d n = (case find (\<lambda>b. name b = n) rows of
                            None \<Rightarrow> (acc(name a \<mapsto> v)) n
                          | Some b \<Rightarrow> (case to_dict b of Inl e \<Rightarrow> None | Inr w \<Rightarrow> Some w))"
    by blast
  have none: "find (\<lambda>b. name b = name a) rows = None"
    using fresh by (auto simp: find_None_iff intro: rev_image_eqI)
  have "d n = (case find (\<lambda>b. name b = n) (a # rows) of
                 None \<Rightarrow> acc n
               | Some b \<Rightarrow> (case to_dict b of Inl e \<Rightarrow> None | Inr w \<Rightarrow> Some w))" for n
  proof (cases "name a = n")
    case True
    with look [of n] none v show ?thesis by simp
  next
    case False
    with look [of n] show ?thesis by (simp split: option.splits)
  qed
  with d v show ?case by simp
qed

lemma find_by_name_distinct:
  "distinct (map name rows) \<Longrightarrow> a \<in> set rows \<Longrightarrow> find (\<lambda>b. name b = name a) rows = Some a"
  by (induction rows) (auto simp: image_iff)

lemma find_by_name_dom:
  "(find (\<lambda>b. name b = n) rows \<noteq> None) = (n \<in> name ` set rows)"
  by (induction rows) auto

section \<open>The claims\<close>


text \<open>
  C1. For every existing activity and every student identifier that is not in its
  participants list, when the list is shorter than \<open>max_participants\<close>, the sign-up
  succeeds, and afterwards the list of that activity is the old list with the
  identifier appended: the identifier occurs exactly once, as the last element, and the
  earlier entries are unchanged and in their order.
\<close>

theorem enroll_appends:
  assumes "first_by_name activity_name rows = Some a"
    and "get_participants a = Inr ps"
    and "email \<notin> set ps"
    and "int (length ps) < max_participants a"
  shows "\<exists>a' ps'.
           signup_for_activity activity_name email rows =
             (Inr [(''message'', ''Signed up '' @ email @ '' for '' @ activity_name)],
              commit a' rows)
           \<and> first_by_name activity_name (commit a' rows) = Some a'
           \<and> get_participants a' = Inr ps'
           \<and> ps' = ps @ [email]
           \<and> count_list ps' email = 1
           \<and> last ps' = email
           \<and> take (length ps) ps' = ps"
proof -
  let ?a' = "set_participants a (ps @ [email])"
  have "signup_for_activity activity_name email rows =
          (Inr [(''message'', ''Signed up '' @ email @ '' for '' @ activity_name)],
           commit ?a' rows)"
    using assms by (rule signup_success)
  moreover have "first_by_name activity_name (commit ?a' rows) = Some ?a'"
    using assms(1) by (rule first_by_name_commit_set_participants)
  moreover have "get_participants ?a' = Inr (ps @ [email])"
    by simp
  moreover have "count_list (ps @ [email]) email = 1"
    using assms(3) by (simp add: count_list_0_iff)
  ultimately show ?thesis
    by (intro exI [of _ ?a'] exI [of _ "ps @ [email]"]) simp
qed

theorem enroll_appends_witness:
  "first_by_name ''Chess Club'' (init_db []) = Some (hd (init_db []))
   \<and> get_participants (hd (init_db [])) =
       Inr [''michael@mergington.edu'', ''daniel@mergington.edu'']
   \<and> ''x@e.edu'' \<notin> set [''michael@mergington.edu'', ''daniel@mergington.edu'']
   \<and> int (length [''michael@mergington.edu'', ''daniel@mergington.edu''])
       < max_participants (hd (init_db []))
   \<and> (\<exists>a' ps'.
         signup_for_activity ''Chess Club'' ''x@e.edu'' (init_db []) =
           (Inr [(''message'', ''Signed up x@e.edu for Chess Club'')], commit a' (init_db []))
         \<and> first_by_name ''Chess Club'' (commit a' (init_db [])) = Some a'
         \<and> get_participants a' = Inr ps'
         \<and> ps' = [''michael@mergington.edu'', ''daniel@mergington.edu'', ''x@e.edu'']
         \<and> count_list ps' ''x@e.edu'' = 1
         \<and> last ps' = ''x@e.edu''
         \<and> take 2 ps' = [''michael@mergington.edu'', ''daniel@mergington.edu''])"
proof -
  have h1: "first_by_name ''Chess Club'' (init_db []) = Some (hd (init_db []))"
    by (rule seeded_chess_club)
  have h2: "get_participants (hd (init_db [])) =
      Inr [''michael@mergington.edu'', ''daniel@mergington.edu'']"
    by (rule seeded_chess_club)
  have h3: "''x@e.edu'' \<notin> set [''michael@mergington.edu'', ''daniel@mergington.edu'']"
    by simp
  have h4: "int (length [''michael@mergington.edu'', ''daniel@mergington.edu''])
      < max_participants (hd (init_db []))"
    by (simp add: seeded_chess_club)
  from enroll_appends [OF h1 h2 h3 h4] h1 h2 h3 h4 show ?thesis
    by simp
qed

text \<open>
  C6. For every activity name that no row carries and every student identifier, the
  sign-up and the unregistration both fail with 404 ``Activity not found'', and both
  leave the table exactly as it was (no row changed, none added).
\<close>

theorem unknown_activity_not_found:
  assumes "first_by_name activity_name rows = None"
  shows "signup_for_activity activity_name email rows =
           (Inl (HTTPException 404 ''Activity not found''), rows)
         \<and> unregister_from_activity activity_name email rows =
           (Inl (HTTPException 404 ''Activity not found''), rows)"
  using assms by (simp add: signup_not_found unregister_not_found)

theorem unknown_activity_not_found_witness:
  "first_by_name ''Unknown Club'' (init_db []) = None
   \<and> signup_for_activity ''Unknown Club'' ''y@e.edu'' (init_db []) =
       (Inl (HTTPException 404 ''Activity not found''), init_db [])
   \<and> unregister_from_activity ''Unknown Club'' ''y@e.edu'' (init_db []) =
       (Inl (HTTPException 404 ''Activity not found''), init_db [])"
proof -
  have h: "first_by_name ''Unknown Club'' (init_db []) = None"
    by (simp add: first_by_name_None_iff seeded_names)
  from unknown_activity_not_found [OF h] h show ?thesis
    by simp
qed

text \<open>
  C10. The sign-up does not look at the identifier itself: for an existing activity
  with room left whose list does not hold the empty string, the sign-up of the empty
  string succeeds and appends the empty string to the list.
\<close>

theorem enroll_empty_identifier:
  assumes "first_by_name activity_name rows = Some a"
    and "get_participants a = Inr ps"
    and "[] \<notin> set ps"
    and "int (length ps) < max_participants a"
  shows "\<exists>a'. signup_for_activity activity_name [] rows =
                 (Inr [(''message'', ''Signed up '' @ [] @ '' for '' @ activity_name)],
                  commit a' rows)
              \<and> first_by_name activity_name (commit a' rows) = Some a'
              \<and> get_participants a' = Inr (ps @ [[]])"
proof -
  let ?a' = "set_participants a (ps @ [[]])"
  have "signup_for_activity activity_name [] rows =
          (Inr [(''message'', ''Signed up '' @ [] @ '' for '' @ activity_name)],
           commit ?a' rows)"
    using assms by (rule signup_success)
  moreover have "first_by_name activity_name (commit ?a' rows) = Some ?a'"
    using assms(1) by (rule first_by_name_commit_set_participants)
  ultimately show ?thesis
    by (intro exI [of _ ?a']) simp
qed

theorem enroll_empty_identifier_witness:
  "first_by_name ''Chess Club'' (init_db []) = Some (hd (init_db []))
   \<and> get_participants (hd (init_db [])) =
       Inr [''michael@mergington.edu'', ''daniel@mergington.edu'']
   \<and> [] \<notin> set [''michael@mergington.edu'', ''daniel@mergington.edu'']
   \<and> int (length [''michael@mergington.edu'', ''daniel@mergington.edu''])
       < max_participants (hd (init_db []))
   \<and> (\<exists>a'. signup_for_activity ''Chess Club'' [] (init_db []) =
               (Inr [(''message'', ''Signed up  for Chess Club'')], commit a' (init_db []))
            \<and> first_by_name ''Chess Club'' (commit a' (init_db [])) = Some a'
            \<and> get_participants a' =
                Inr [''michael@mergington.edu'', ''daniel@mergington.edu'', []])"
proof -
  have h1: "first_by_name ''Chess Club'' (init_db []) = Some (hd (init_db []))"
    by (rule seeded_chess_club)
  have h2: "get_participants (hd (init_db [])) =
      Inr [''michael@mergington.edu'', ''daniel@mergington.edu'']"
    by (rule seeded_chess_club)
  have h3: "[] \<notin> set [''michael@mergington.edu'', ''daniel@mergington.edu'']"
    by simp
  have h4: "int (length [''michael@mergington.edu'', ''daniel@mergington.edu''])
      < max_participants (hd (init_db []))"
    by (simp add: seeded_chess_club)
  from enroll_empty_identifier [OF h1 h2 h3 h4] h1 h2 h3 h4 show ?thesis
    by simp
qed

text \<open>
  C4. For every existing activity whose list has no duplicates and every student
  identifier in that list, the unregistration succeeds; afterwards the identifier is
  not in the list, and the list is the old one without it, the other entries in their
  order. A second unregistration of the same student right after fails with 400
  ``Student is not signed up for this activity'' and leaves the table unchanged.
\<close>

theorem withdraw_removes:
  assumes "first_by_name activity_name rows = Some a"
    and "get_participants a = Inr ps"
    and "email \<in> set ps"
    and "distinct ps"
  shows "\<exists>a' ps'.
           unregister_from_activity activity_name email rows =
             (Inr [(''message'', ''Unregistered '' @ email @ '' from '' @ activity_name)],
              commit a' rows)
           \<and> first_by_name activity_name (commit a' rows) = Some a'
           \<and> get_participants a' = Inr ps'
           \<and> email \<notin> set ps'
           \<and> ps' = filter (\<lambda>s. s \<noteq> email) ps
           \<and> unregister_from_activity activity_name email (commit a' rows) =
               (Inl (HTTPException 400 ''Student is not signed up for this activity''),
                commit a' rows)"
proof -
  let ?ps' = "remove1 email ps"
  let ?a' = "set_participants a ?ps'"
  have gone: "email \<notin> set ?ps'"
    using assms(4) by simp
  have order: "?ps' = filter (\<lambda>s. s \<noteq> email) ps"
    using assms(4) by (rule remove1_distinct_filter)
  have first: "unregister_from_activity activity_name email rows =
      (Inr [(''message'', ''Unregistered '' @ email @ '' from '' @ activity_name)],
       commit ?a' rows)"
    using assms(1-3) by (rule unregister_success)
  have found: "first_by_name activity_name (commit ?a' rows) = Some ?a'"
    using assms(1) by (rule first_by_name_commit_set_participants)
  have roster: "get_participants ?a' = Inr ?ps'"
    by simp
  have second: "unregister_from_activity activity_name email (commit ?a' rows) =
      (Inl (HTTPException 400 ''Student is not signed up for this activity''),
       commit ?a' rows)"
    using found roster gone by (rule unregister_absent)
  from first found roster gone order second show ?thesis
    by (intro exI [of _ ?a'] exI [of _ ?ps']) simp
qed

theorem withdraw_removes_witness:
  "first_by_name ''Chess Club'' (init_db []) = Some (hd (init_db []))
   \<and> get_participants (hd (init_db [])) =
       Inr [''michael@mergington.edu'', ''daniel@mergington.edu'']
   \<and> ''michael@mergington.edu'' \<in> set [''michael@mergington.edu'', ''daniel@mergington.edu'']
   \<and> distinct [''michael@mergington.edu'', ''daniel@mergington.edu'']
   \<and> (\<exists>a'. unregister_from_activity ''Chess Club'' ''michael@mergington.edu'' (init_db []) =
               (Inr [(''message'', ''Unregistered michael@mergington.edu from Chess Club'')],
                commit a' (init_db []))
            \<and> first_by_name ''Chess Club'' (commit a' (init_db [])) = Some a'
            \<and> get_participants a' = Inr [''daniel@mergington.edu'']
            \<and> unregister_from_activity ''Chess Club'' ''michael@mergington.edu''
                  (commit a' (init_db [])) =
                (Inl (HTTPException 400 ''Student is not signed up for this activity''),
                 commit a' (init_db [])))"
proof -
  have h1: "first_by_name ''Chess Club'' (init_db []) = Some (hd (init_db []))"
    by (rule seeded_chess_club)
  have h2: "get_participants (hd (init_db [])) =
      Inr [''michael@mergington.edu'', ''daniel@mergington.edu'']"
    by (rule seeded_chess_club)
  have h3: "''michael@mergington.edu''
      \<in> set [''michael@mergington.edu'', ''daniel@mergington.edu'']"
    by simp
  have h4: "distinct [''michael@mergington.edu'', ''daniel@mergington.edu'']"
    by simp
  from withdraw_removes [OF h1 h2 h3 h4] h1 h2 h3 h4 show ?thesis
    by fastforce
qed

text \<open>
  C2. For every existing activity and every student identifier that is not in its
  list: when the list is as long as \<open>max_participants\<close> the sign-up fails with 400
  ``Activity is at maximum capacity'' and the table is unchanged, and so does every
  sign-up whose appended list would be longer than \<open>max_participants\<close>. The boundary is
  exact: an activity with \<open>max_participants = 1\<close> and no participant accepts the sign-up,
  holds exactly that student afterwards, and then rejects every further sign-up (of
  another student for capacity, of the same student as a duplicate), unchanged.
\<close>

theorem enroll_capacity_boundary:
  assumes "first_by_name activity_name rows = Some a"
    and "get_participants a = Inr ps"
    and "email \<notin> set ps"
  shows "(int (length ps) = max_participants a \<longrightarrow>
            signup_for_activity activity_name email rows =
              (Inl (HTTPException 400 ''Activity is at maximum capacity''), rows))
       \<and> (max_participants a < int (length ps) + 1 \<longrightarrow>
            signup_for_activity activity_name email rows =
              (Inl (HTTPException 400 ''Activity is at maximum capacity''), rows))
       \<and> (max_participants a = 1 \<and> ps = [] \<longrightarrow>
            (\<exists>a'. signup_for_activity activity_name email rows =
                     (Inr [(''message'', ''Signed up '' @ email @ '' for '' @ activity_name)],
                      commit a' rows)
                 \<and> first_by_name activity_name (commit a' rows) = Some a'
                 \<and> get_participants a' = Inr [email]
                 \<and> (\<forall>other. other \<noteq> email \<longrightarrow>
                       signup_for_activity activity_name other (commit a' rows) =
                         (Inl (HTTPException 400 ''Activity is at maximum capacity''),
                          commit a' rows))
                 \<and> signup_for_activity activity_name email (commit a' rows) =
                     (Inl (HTTPException 400 ''Student is already signed up''),
                      commit a' rows)))"
proof (intro conjI impI)
  assume "int (length ps) = max_participants a"
  with assms show "signup_for_activity activity_name email rows =
      (Inl (HTTPException 400 ''Activity is at maximum capacity''), rows)"
    by (intro signup_full [where ps = ps and a = a]) simp_all
next
  assume "max_participants a < int (length ps) + 1"
  with assms show "signup_for_activity activity_name email rows =
      (Inl (HTTPException 400 ''Activity is at maximum capacity''), rows)"
    by (intro signup_full [where ps = ps and a = a]) simp_all
next
  assume one: "max_participants a = 1 \<and> ps = []"
  let ?a' = "set_participants a [email]"
  let ?rows' = "commit ?a' rows"
  have first: "signup_for_activity activity_name email rows =
      (Inr [(''message'', ''Signed up '' @ email @ '' for '' @ activity_name)], ?rows')"
    using signup_success [OF assms] one by simp
  have found: "first_by_name activity_name ?rows' = Some ?a'"
    using assms(1) by (rule first_by_name_commit_set_participants)
  have roster: "get_participants ?a' = Inr [email]"
    by simp
  have others: "signup_for_activity activity_name other ?rows' =
      (Inl (HTTPException 400 ''Activity is at maximum capacity''), ?rows')"
    if "other \<noteq> email" for other
    using found roster that one
    by (intro signup_full [where ps = "[email]" and a = ?a']) simp_all
  have again: "signup_for_activity activity_name email ?rows' =
      (Inl (HTTPException 400 ''Student is already signed up''), ?rows')"
    using found roster by (intro signup_duplicate [where ps = "[email]" and a = ?a']) simp_all
  from first found roster others again
  show "\<exists>a'. signup_for_activity activity_name email rows =
                (Inr [(''message'', ''Signed up '' @ email @ '' for '' @ activity_name)],
                 commit a' rows)
            \<and> first_by_name activity_name (commit a' rows) = Some a'
            \<and> get_participants a' = Inr [email]
            \<and> (\<forall>other. other \<noteq> email \<longrightarrow>
                  signup_for_activity activity_name other (commit a' rows) =
                    (Inl (HTTPException 400 ''Activity is at maximum capacity''),
                     commit a' rows))
            \<and> signup_for_activity activity_name email (commit a' rows) =
                (Inl (HTTPException 400 ''Student is already signed up''),
                 commit a' rows)"
    by (intro exI [of _ ?a']) blast
qed

theorem enroll_capacity_boundary_witness:
  "let solo = \<lparr>activity_id = 1, name = ''Solo'', description = ''One seat'',
                schedule = ''Mondays'', max_participants = 1, participants_json = ''[]''\<rparr>;
       a0 = set_participants solo [];
       a1 = set_participants solo [''a@e.edu'']
   in first_by_name ''Solo'' [a1] = Some a1
      \<and> get_participants a1 = Inr [''a@e.edu'']
      \<and> ''b@e.edu'' \<notin> set [''a@e.edu'']
      \<and> int (length [''a@e.edu'']) = max_participants a1
      \<and> max_participants a1 < int (length [''a@e.edu'']) + 1
      \<and> signup_for_activity ''Solo'' ''b@e.edu'' [a1] =
           (Inl (HTTPException 400 ''Activity is at maximum capacity''), [a1])
      \<and> first_by_name ''Solo'' [a0] = Some a0
      \<and> get_participants a0 = Inr []
      \<and> ''a@e.edu'' \<notin> set []
      \<and> max_participants a0 = 1
      \<and> (\<exists>a'. signup_for_activity ''Solo'' ''a@e.edu'' [a0] =
                  (Inr [(''message'', ''Signed up a@e.edu for Solo'')], commit a' [a0])
               \<and> get_participants a' = Inr [''a@e.edu'']
               \<and> signup_for_activity ''Solo'' ''b@e.edu'' (commit a' [a0]) =
                   (Inl (HTTPException 400 ''Activity is at maximum capacity''),
                    commit a' [a0]))"
proof -
  let ?solo = "\<lparr>activity_id = 1, name = ''Solo'', description = ''One seat'',
    schedule = ''Mondays'', max_participants = 1, participants_json = ''[]''\<rparr>"
  let ?a0 = "set_participants ?solo []"
  let ?a1 = "set_participants ?solo [''a@e.edu'']"
  have f1: "first_by_name ''Solo'' [?a1] = Some ?a1"
    by (simp add: first_by_name_def)
  have g1: "get_participants ?a1 = Inr [''a@e.edu'']"
    by simp
  have n1: "''b@e.edu'' \<notin> set [''a@e.edu'']"
    by simp
  have m1: "int (length [''a@e.edu'']) = max_participants ?a1"
    by simp
  have m1': "max_participants ?a1 < int (length [''a@e.edu'']) + 1"
    by simp
  have f0: "first_by_name ''Solo'' [?a0] = Some ?a0"
    by (simp add: first_by_name_def)
  have g0: "get_participants ?a0 = Inr []"
    by simp
  have n0: "''a@e.edu'' \<notin> set []"
    by simp
  have m0: "max_participants ?a0 = 1"
    by simp
  note at_capacity = enroll_capacity_boundary [OF f1 g1 n1, THEN conjunct1, THEN mp, OF m1]
  note one_seat = enroll_capacity_boundary [OF f0 g0 n0, THEN conjunct2, THEN conjunct2,
      THEN mp, OF conjI [OF m0 refl]]
  from one_seat obtain a' where
      first: "signup_for_activity ''Solo'' ''a@e.edu'' [?a0] =
        (Inr [(''message'', ''Signed up '' @ ''a@e.edu'' @ '' for '' @ ''Solo'')], commit a' [?a0])"
    and roster: "get_participants a' = Inr [''a@e.edu'']"
    and others: "\<forall>other. other \<noteq> ''a@e.edu'' \<longrightarrow>
        signup_for_activity ''Solo'' other (commit a' [?a0]) =
          (Inl (HTTPException 400 ''Activity is at maximum capacity''), commit a' [?a0])"
    by blast
  have neq: "''b@e.edu'' \<noteq> ''a@e.edu''"
    by simp
  have second: "signup_for_activity ''Solo'' ''b@e.edu'' (commit a' [?a0]) =
      (Inl (HTTPException 400 ''Activity is at maximum capacity''), commit a' [?a0])"
    by (rule others [rule_format, OF neq])
  from first have first': "signup_for_activity ''Solo'' ''a@e.edu'' [?a0] =
      (Inr [(''message'', ''Signed up a@e.edu for Solo'')], commit a' [?a0])"
    by simp
  have seat:
    "\<exists>a'. signup_for_activity ''Solo'' ''a@e.edu'' [?a0] =
            (Inr [(''message'', ''Signed up a@e.edu for Solo'')], commit a' [?a0])
          \<and> get_participants a' = Inr [''a@e.edu'']
          \<and> signup_for_activity ''Solo'' ''b@e.edu'' (commit a' [?a0]) =
              (Inl (HTTPException 400 ''Activity is at maximum capacity''), commit a' [?a0])"
    by (intro exI [of _ a'] conjI) (rule first' roster second)+
  show ?thesis
    unfolding Let_def
    by (intro conjI) (rule f1 g1 n1 m1 m1' at_capacity f0 g0 n0 m0 seat)+
qed

text \<open>
  C3. The sign-up checks, in this order, that the activity exists, that the student is
  not in its list, and that the list has room; the first check that fails names the
  error. So a sign-up of a student who is already in the list of a full activity fails
  with 400 ``Student is already signed up'', not with the capacity error.
\<close>

theorem enroll_check_order:
  "(first_by_name activity_name rows = None \<longrightarrow>
      signup_for_activity activity_name email rows =
        (Inl (HTTPException 404 ''Activity not found''), rows))
   \<and> (first_by_name activity_name rows = Some a \<and> get_participants a = Inr ps \<longrightarrow>
        (email \<in> set ps \<longrightarrow>
           signup_for_activity activity_name email rows =
             (Inl (HTTPException 400 ''Student is already signed up''), rows))
      \<and> (email \<notin> set ps \<and> max_participants a \<le> int (length ps) \<longrightarrow>
           signup_for_activity activity_name email rows =
             (Inl (HTTPException 400 ''Activity is at maximum capacity''), rows))
      \<and> (email \<notin> set ps \<and> int (length ps) < max_participants a \<longrightarrow>
           fst (signup_for_activity activity_name email rows) =
             Inr [(''message'', ''Signed up '' @ email @ '' for '' @ activity_name)])
      \<and> (email \<in> set ps \<and> int (length ps) = max_participants a \<longrightarrow>
           fst (signup_for_activity activity_name email rows) =
             Inl (HTTPException 400 ''Student is already signed up'')
           \<and> fst (signup_for_activity activity_name email rows) \<noteq>
             Inl (HTTPException 400 ''Activity is at maximum capacity'')))"
  by (simp add: signup_for_activity_def)

theorem enroll_check_order_witness:
  "let solo = \<lparr>activity_id = 1, name = ''Solo'', description = ''One seat'',
                schedule = ''Mondays'', max_participants = 1, participants_json = ''[]''\<rparr>;
       a0 = set_participants solo [];
       a1 = set_participants solo [''a@e.edu'']
   in first_by_name ''Duo'' [a1] = None
      \<and> signup_for_activity ''Duo'' ''a@e.edu'' [a1] =
           (Inl (HTTPException 404 ''Activity not found''), [a1])
      \<and> first_by_name ''Solo'' [a1] = Some a1
      \<and> get_participants a1 = Inr [''a@e.edu'']
      \<and> ''a@e.edu'' \<in> set [''a@e.edu'']
      \<and> int (length [''a@e.edu'']) = max_participants a1
      \<and> fst (signup_for_activity ''Solo'' ''a@e.edu'' [a1]) =
           Inl (HTTPException 400 ''Student is already signed up'')
      \<and> fst (signup_for_activity ''Solo'' ''a@e.edu'' [a1]) \<noteq>
           Inl (HTTPException 400 ''Activity is at maximum capacity'')
      \<and> ''b@e.edu'' \<notin> set [''a@e.edu'']
      \<and> signup_for_activity ''Solo'' ''b@e.edu'' [a1] =
           (Inl (HTTPException 400 ''Activity is at maximum capacity''), [a1])
      \<and> first_by_name ''Solo'' [a0] = Some a0
      \<and> get_participants a0 = Inr []
      \<and> int (length ([] :: string list)) < max_participants a0
      \<and> fst (signup_for_activity ''Solo'' ''b@e.edu'' [a0]) =
           Inr [(''message'', ''Signed up b@e.edu for Solo'')]"
proof -
  define solo where "solo = \<lparr>activity_id = 1, name = ''Solo'', description = ''One seat'',
    schedule = ''Mondays'', max_participants = 1, participants_json = ''[]''\<rparr>"
  define a0 where "a0 = set_participants solo []"
  define a1 where "a1 = set_participants solo [''a@e.edu'']"
  have u: "first_by_name ''Duo'' [a1] = None"
    by (simp add: first_by_name_def a1_def solo_def)
  have f1: "first_by_name ''Solo'' [a1] = Some a1"
    by (simp add: first_by_name_def a1_def solo_def)
  have g1: "get_participants a1 = Inr [''a@e.edu'']"
    by (simp add: a1_def)
  have m1: "max_participants a1 = 1"
    by (simp add: a1_def solo_def)
  have f0: "first_by_name ''Solo'' [a0] = Some a0"
    by (simp add: first_by_name_def a0_def solo_def)
  have g0: "get_participants a0 = Inr []"
    by (simp add: a0_def)
  have m0: "max_participants a0 = 1"
    by (simp add: a0_def solo_def)
  have nf: "signup_for_activity ''Duo'' ''a@e.edu'' [a1] =
      (Inl (HTTPException 404 ''Activity not found''), [a1])"
    using enroll_check_order [where activity_name = "''Duo''" and rows = "[a1]" and email = "''a@e.edu''"] u by simp
  have dup: "fst (signup_for_activity ''Solo'' ''a@e.edu'' [a1]) =
        Inl (HTTPException 400 ''Student is already signed up'')
      \<and> fst (signup_for_activity ''Solo'' ''a@e.edu'' [a1]) \<noteq>
        Inl (HTTPException 400 ''Activity is at maximum capacity'')"
    using enroll_check_order [where activity_name = "''Solo''" and rows = "[a1]" and a = a1
        and ps = "[''a@e.edu'']" and email = "''a@e.edu''"] f1 g1 m1
    by simp
  have cap: "signup_for_activity ''Solo'' ''b@e.edu'' [a1] =
      (Inl (HTTPException 400 ''Activity is at maximum capacity''), [a1])"
    using enroll_check_order [where activity_name = "''Solo''" and rows = "[a1]" and a = a1
        and ps = "[''a@e.edu'']" and email = "''b@e.edu''"] f1 g1 m1
    by simp
  have ok: "fst (signup_for_activity ''Solo'' ''b@e.edu'' [a0]) =
      Inr [(''message'', ''Signed up b@e.edu for Solo'')]"
    using enroll_check_order [where activity_name = "''Solo''" and rows = "[a0]" and a = a0
        and ps = "[]" and email = "''b@e.edu''"] f0 g0 m0
    by simp
  from u f1 g1 m1 f0 g0 m0 nf dup cap ok show ?thesis
    unfolding Let_def solo_def [symmetric] a0_def [symmetric] a1_def [symmetric]
    by simp
qed

text \<open>
  C5. In every table that can be reached from the seeded one by sign-ups and
  unregistrations, every activity has a list no longer than its \<open>max_participants\<close>,
  and no student identifier occurs twice in it.
\<close>

theorem reachable_rosters_bounded_distinct:
  assumes "reachable rows"
  shows "\<forall>a\<in>set rows. \<exists>ps. get_participants a = Inr ps
           \<and> int (length ps) \<le> max_participants a \<and> distinct ps"
  using reachable_rosters_ok [OF assms] by (simp add: roster_ok_iff)

theorem reachable_rosters_bounded_distinct_witness:
  "reachable (snd (unregister_from_activity ''Chess Club'' ''daniel@mergington.edu''
      (snd (signup_for_activity ''Chess Club'' ''x@e.edu'' (init_db [])))))
   \<and> list_all (\<lambda>a. \<exists>ps. get_participants a = Inr ps
                  \<and> int (length ps) \<le> max_participants a \<and> distinct ps)
        (snd (unregister_from_activity ''Chess Club'' ''daniel@mergington.edu''
           (snd (signup_for_activity ''Chess Club'' ''x@e.edu'' (init_db [])))))"
proof -
  have r: "reachable (snd (unregister_from_activity ''Chess Club'' ''daniel@mergington.edu''
      (snd (signup_for_activity ''Chess Club'' ''x@e.edu'' (init_db [])))))"
    by (intro reachable.intros)
  from reachable_rosters_bounded_distinct [OF r] r show ?thesis
    by (simp only: list_all_iff simp_thms)
qed

text \<open>
  C7. From the seeded table, where the Chess Club has \<open>max_participants = 12\<close> and two
  participants: the sign-up of \<^verbatim>\<open>x@e.edu\<close> succeeds and leaves three entries, the last
  of them \<^verbatim>\<open>x@e.edu\<close>; the same sign-up again fails as a duplicate; the
  unregistration of \<^verbatim>\<open>x@e.edu\<close> succeeds and restores the two original entries; the
  same unregistration again fails; and a sign-up for the unknown ``Unknown Club'' fails
  with 404.
\<close>

theorem chess_club_scenario:
  "let db0 = init_db [];
       (r1, db1) = signup_for_activity ''Chess Club'' ''x@e.edu'' db0;
       (r2, db2) = signup_for_activity ''Chess Club'' ''x@e.edu'' db1;
       (r3, db3) = unregister_from_activity ''Chess Club'' ''x@e.edu'' db2;
       (r4, db4) = unregister_from_activity ''Chess Club'' ''x@e.edu'' db3;
       (r5, db5) = signup_for_activity ''Unknown Club'' ''y@e.edu'' db4
   in map_option max_participants (first_by_name ''Chess Club'' db0) = Some 12
      \<and> map_option get_participants (first_by_name ''Chess Club'' db0) =
          Some (Inr [''michael@mergington.edu'', ''daniel@mergington.edu''])
      \<and> r1 = Inr [(''message'', ''Signed up x@e.edu for Chess Club'')]
      \<and> map_option get_participants (first_by_name ''Chess Club'' db1) =
          Some (Inr [''michael@mergington.edu'', ''daniel@mergington.edu'', ''x@e.edu''])
      \<and> r2 = Inl (HTTPException 400 ''Student is already signed up'')
      \<and> db2 = db1
      \<and> r3 = Inr [(''message'', ''Unregistered x@e.edu from Chess Club'')]
      \<and> map_option get_participants (first_by_name ''Chess Club'' db3) =
          Some (Inr [''michael@mergington.edu'', ''daniel@mergington.edu''])
      \<and> db3 = db0
      \<and> r4 = Inl (HTTPException 400 ''Student is not signed up for this activity'')
      \<and> db4 = db3
      \<and> r5 = Inl (HTTPException 404 ''Activity not found'')
      \<and> db5 = db4"
proof -
  let ?m = "''michael@mergington.edu''" and ?d = "''daniel@mergington.edu''"
  let ?x = "''x@e.edu''"
  let ?db0 = "init_db []"
  let ?a0 = "hd ?db0"
  let ?a1 = "set_participants ?a0 [?m, ?d, ?x]"
  let ?db1 = "commit ?a1 ?db0"
  have f0: "first_by_name ''Chess Club'' ?db0 = Some ?a0"
    and g0: "get_participants ?a0 = Inr [?m, ?d]"
    and m0: "max_participants ?a0 = 12"
    by (rule seeded_chess_club)+
  have s1: "signup_for_activity ''Chess Club'' ?x ?db0 =
      (Inr [(''message'', ''Signed up x@e.edu for Chess Club'')], ?db1)"
    using signup_success [OF f0 g0, of ?x] m0 by simp
  have f1: "first_by_name ''Chess Club'' ?db1 = Some ?a1"
    using f0 by (rule first_by_name_commit_set_participants)
  have g1: "get_participants ?a1 = Inr [?m, ?d, ?x]"
    by simp
  have s2: "signup_for_activity ''Chess Club'' ?x ?db1 =
      (Inl (HTTPException 400 ''Student is already signed up''), ?db1)"
    using f1 g1 by (rule signup_duplicate) simp
  have restored: "commit (set_participants ?a1 [?m, ?d]) ?db1 = ?db0"
    by (simp add: init_db_def default_activities_def commit_def)
  have s3: "unregister_from_activity ''Chess Club'' ?x ?db1 =
      (Inr [(''message'', ''Unregistered x@e.edu from Chess Club'')], ?db0)"
    using unregister_success [OF f1 g1, of ?x] restored by simp
  have s4: "unregister_from_activity ''Chess Club'' ?x ?db0 =
      (Inl (HTTPException 400 ''Student is not signed up for this activity''), ?db0)"
    using f0 g0 by (rule unregister_absent) simp
  have f5: "first_by_name ''Unknown Club'' ?db0 = None"
    by (simp add: first_by_name_None_iff seeded_names)
  have s5: "signup_for_activity ''Unknown Club'' ''y@e.edu'' ?db0 =
      (Inl (HTTPException 404 ''Activity not found''), ?db0)"
    using f5 by (rule signup_not_found)
  show ?thesis
    by (simp add: Let_def s1 s2 s3 s4 s5 f0 g0 m0 f1)
qed

text \<open>
  C8. The listing returns a mapping whose keys are the names of the stored activities;
  each name is mapped to the view of its row, which holds exactly the four entries
  description, schedule, max_participants and participants, read from the table as it
  is at the call. The listing returns the table unchanged and raises nothing. (Names
  are unique in the table, and every roster decodes: both hold in the seeded table and
  are kept by the handlers.)
\<close>

theorem list_activities_views:
  assumes "distinct (map name rows)"
    and "\<forall>a\<in>set rows. \<exists>ps. get_participants a = Inr ps"
  shows "\<exists>d. get_activities rows = (Inr d, rows)
           \<and> dom d = name ` set rows
           \<and> (\<forall>a\<in>set rows. \<forall>ps. get_participants a = Inr ps \<longrightarrow>
                 d (name a) = Some [(''description'', PyStr (description a)),
                                    (''schedule'', PyStr (schedule a)),
                                    (''max_participants'', PyInt (max_participants a)),
                                    (''participants'', PyList ps)])"
proof -
  from activities_dict_lookup [OF assms(2) assms(1), of Map.empty] obtain d where
    d: "activities_dict Map.empty rows = Inr d"
    and look: "\<And>n. d n = (case find (\<lambda>a. name a = n) rows of
                            None \<Rightarrow> None
                          | Some a \<Rightarrow> (case to_dict a of Inl e \<Rightarrow> None | Inr v \<Rightarrow> Some v))"
    by auto
  have result: "get_activities rows = (Inr d, rows)"
    using d by (simp add: get_activities_def)
  have view: "d (name a) = Some [(''description'', PyStr (description a)),
                                 (''schedule'', PyStr (schedule a)),
                                 (''max_participants'', PyInt (max_participants a)),
                                 (''participants'', PyList ps)]"
    if "a \<in> set rows" and "get_participants a = Inr ps" for a ps
    using look [of "name a"] find_by_name_distinct [OF assms(1) that(1)] that(2)
    by (simp add: to_dict_def)
  have "dom d = name ` set rows"
  proof (rule set_eqI)
    fix n
    show "n \<in> dom d \<longleftrightarrow> n \<in> name ` set rows"
    proof (cases "find (\<lambda>a. name a = n) rows")
      case None
      with look [of n] find_by_name_dom [of n rows] show ?thesis
        by (simp add: dom_def)
    next
      case (Some a)
      then have "a \<in> set rows" and "name a = n"
        by (auto simp: find_Some_iff in_set_conv_nth)
      with view assms(2) have "d n \<noteq> None"
        by fastforce
      with Some find_by_name_dom [of n rows] show ?thesis
        by (simp add: dom_def)
    qed
  qed
  with result view show ?thesis
    by (intro exI [of _ d]) simp
qed

theorem list_activities_views_witness:
  "distinct (map name (init_db []))
   \<and> list_all (\<lambda>a. \<exists>ps. get_participants a = Inr ps) (init_db [])
   \<and> (\<exists>d. get_activities (init_db []) = (Inr d, init_db [])
          \<and> dom d = name ` set (init_db [])
          \<and> d ''Chess Club'' =
              Some [(''description'', PyStr ''Learn strategies and compete in chess tournaments''),
                    (''schedule'', PyStr ''Fridays, 3:30 PM - 5:00 PM''),
                    (''max_participants'', PyInt 12),
                    (''participants'',
                     PyList [''michael@mergington.edu'', ''daniel@mergington.edu''])])"
proof -
  have h1: "distinct (map name (init_db []))"
    by (simp add: seeded_names)
  have h2: "\<forall>a\<in>set (init_db []). \<exists>ps. get_participants a = Inr ps"
    by (simp add: init_db_def default_activities_def)
  have chess: "hd (init_db []) \<in> set (init_db [])"
    "name (hd (init_db [])) = ''Chess Club''"
    "description (hd (init_db [])) = ''Learn strategies and compete in chess tournaments''"
    "schedule (hd (init_db [])) = ''Fridays, 3:30 PM - 5:00 PM''"
    "max_participants (hd (init_db [])) = 12"
    "get_participants (hd (init_db [])) =
       Inr [''michael@mergington.edu'', ''daniel@mergington.edu'']"
    by (simp_all add: init_db_def default_activities_def)
  from list_activities_views [OF h1 h2] obtain d where
    res: "get_activities (init_db []) = (Inr d, init_db [])"
    and keys: "dom d = name ` set (init_db [])"
    and views: "\<forall>a\<in>set (init_db []). \<forall>ps. get_participants a = Inr ps \<longrightarrow>
                 d (name a) = Some [(''description'', PyStr (description a)),
                                    (''schedule'', PyStr (schedule a)),
                                    (''max_participants'', PyInt (max_participants a)),
                                    (''participants'', PyList ps)]"
    by auto
  have "d (name (hd (init_db []))) =
      Some [(''description'', PyStr (description (hd (init_db [])))),
            (''schedule'', PyStr (schedule (hd (init_db [])))),
            (''max_participants'', PyInt (max_participants (hd (init_db [])))),
            (''participants'', PyList [''michael@mergington.edu'', ''daniel@mergington.edu''])]"
    by (rule views [rule_format, OF chess(1) chess(6)])
  then have "d ''Chess Club'' =
      Some [(''description'', PyStr ''Learn strategies and compete in chess tournaments''),
            (''schedule'', PyStr ''Fridays, 3:30 PM - 5:00 PM''),
            (''max_participants'', PyInt 12),
            (''participants'', PyList [''michael@mergington.edu'', ''daniel@mergington.edu''])]"
    by (simp only: chess)
  with res keys have "\<exists>d. get_activities (init_db []) = (Inr d, init_db [])
          \<and> dom d = name ` set (init_db [])
          \<and> d ''Chess Club'' =
              Some [(''description'', PyStr ''Learn strategies and compete in chess tournaments''),
                    (''schedule'', PyStr ''Fridays, 3:30 PM - 5:00 PM''),
                    (''max_participants'', PyInt 12),
                    (''participants'',
                     PyList [''michael@mergington.edu'', ''daniel@mergington.edu''])]"
    by (intro exI [of _ d] conjI)
  moreover have "list_all (\<lambda>a. \<exists>ps. get_participants a = Inr ps) (init_db [])"
    using h2 by (simp only: list_all_iff)
  ultimately show ?thesis
    using h1 by (intro conjI)
qed

end
